theory Spec2Isabelle
  imports Main
begin

section \<open>The Pomodoro timer engine (\<^verbatim>\<open>class PomodoroTimer\<close> of app.py)\<close>

text \<open>
  Python exceptions are values. \<open>KeyError k\<close> carries the key that was looked up,
  \<open>ZeroDivisionError\<close> is what \<^verbatim>\<open>%\<close> raises on a zero divisor, \<open>OverflowError\<close> is
  what the \<^verbatim>\<open>datetime\<close> arithmetic raises outside its range, and \<open>ValueError\<close> is what
  the \<^verbatim>\<open>date\<close> constructor raises for a day that does not exist.
\<close>

datatype error = KeyError string | ZeroDivisionError | OverflowError | ValueError

text \<open>
  The settings are a Python dict from setting names to numbers (a \<^verbatim>\<open>bool\<close> such as
  \<^verbatim>\<open>auto_start\<close> is the integer 0 or 1). The timer object has the five attributes
  assigned in \<^verbatim>\<open>__init__\<close> and \<^verbatim>\<open>reset\<close>; \<open>state\<close> and \<open>session_type\<close> are Python
  strings, \<open>time_left\<close> and \<open>completed_sessions\<close> are unbounded integers.
\<close>

type_synonym settings = "string \<rightharpoonup> int"

record timer =
  settings :: settings
  state :: string
  session_type :: string
  time_left :: int
  completed_sessions :: int

text \<open>
  A method that mutates \<^verbatim>\<open>self\<close> returns the timer after the call. A method that can
  raise returns the exception or the value together with the timer as the call left
  it, since the assignments made before a raise stay in the object.
\<close>

definition reset :: "timer \<Rightarrow> (error + unit) \<times> timer" where
  "reset self =
     (let self = self\<lparr>state := ''idle''\<rparr>;
          self = self\<lparr>session_type := ''work''\<rparr>
      in case settings self ''work_duration'' of
           None \<Rightarrow> (Inl (KeyError ''work_duration''), self)
         | Some d \<Rightarrow>
             (let self = self\<lparr>time_left := d * 60\<rparr>;
                  self = self\<lparr>completed_sessions := 0\<rparr>
              in (Inr (), self)))"

text \<open>
  \<^verbatim>\<open>__init__\<close> stores the settings and calls \<^verbatim>\<open>reset\<close>. The other attributes do not
  exist before \<^verbatim>\<open>reset\<close> assigns them; the record needs some value there, and a
  successful \<^verbatim>\<open>reset\<close> overwrites every one of them. When \<^verbatim>\<open>reset\<close> raises, the
  constructor raises and no timer exists.
\<close>

definition init :: "settings \<Rightarrow> error + timer" where
  "init s =
     (case reset \<lparr>settings = s, state = [], session_type = [],
                  time_left = 0, completed_sessions = 0\<rparr> of
        (Inl e, _) \<Rightarrow> Inl e
      | (Inr _, self) \<Rightarrow> Inr self)"

definition start :: "timer \<Rightarrow> timer" where
  "start self = (if state self \<noteq> ''running'' then self\<lparr>state := ''running''\<rparr> else self)"

definition pause :: "timer \<Rightarrow> timer" where
  "pause self = (if state self = ''running'' then self\<lparr>state := ''paused''\<rparr> else self)"

text \<open>The dict literal \<^verbatim>\<open>key_map\<close> of \<^verbatim>\<open>_get_duration_for_session\<close>.\<close>

definition key_map :: "string \<rightharpoonup> string" where
  "key_map = map_of [(''work'', ''work_duration''),
                     (''short_break'', ''short_break''),
                     (''long_break'', ''long_break'')]"

text \<open>
  \<^verbatim>\<open>_get_duration_for_session\<close> (an Isabelle name cannot start with an underscore):
  two dict lookups, each raising \<open>KeyError\<close> on a missing key.
\<close>

definition get_duration_for_session :: "timer \<Rightarrow> error + int" where
  "get_duration_for_session self =
     (case key_map (session_type self) of
        None \<Rightarrow> Inl (KeyError (session_type self))
      | Some duration_key \<Rightarrow>
          (case settings self duration_key of
             None \<Rightarrow> Inl (KeyError duration_key)
           | Some d \<Rightarrow> Inr (d * 60)))"

definition set_session :: "timer \<Rightarrow> string \<Rightarrow> (error + unit) \<times> timer" where
  "set_session self new_type =
     (let self = self\<lparr>state := ''idle''\<rparr>;
          self = self\<lparr>session_type := new_type\<rparr>
      in case get_duration_for_session self of
           Inl e \<Rightarrow> (Inl e, self)
         | Inr d \<Rightarrow> (Inr (), self\<lparr>time_left := d\<rparr>))"

text \<open>\<^verbatim>\<open>tick\<close> returns \<^verbatim>\<open>None\<close> or the name of the event; it never raises.\<close>

definition tick :: "timer \<Rightarrow> string option \<times> timer" where
  "tick self =
     (if state self \<noteq> ''running'' \<or> time_left self \<le> 0 then (None, self)
      else
        (let self = self\<lparr>time_left := time_left self - 1\<rparr>
         in if time_left self > 0 then (None, self)
            else
              (let self = self\<lparr>state := ''idle''\<rparr>
               in if session_type self = ''work''
                  then (Some ''work_complete'',
                        self\<lparr>completed_sessions := completed_sessions self + 1\<rparr>)
                  else (Some ''break_complete'', self))))"

text \<open>
  \<^verbatim>\<open>get_next_break_type\<close> reads the setting first, so a missing key raises before
  anything else; Python's \<^verbatim>\<open>%\<close> raises on a zero divisor and otherwise is the floored
  remainder, which is \<open>mod\<close> on \<open>int\<close>. The method assigns nothing.
\<close>

definition get_next_break_type :: "timer \<Rightarrow> (error + string) \<times> timer" where
  "get_next_break_type self =
     (case settings self ''sessions_per_long_break'' of
        None \<Rightarrow> (Inl (KeyError ''sessions_per_long_break''), self)
      | Some sessions_for_long_break \<Rightarrow>
          if completed_sessions self = 0 then (Inr ''short_break'', self)
          else if sessions_for_long_break = 0 then (Inl ZeroDivisionError, self)
          else if completed_sessions self mod sessions_for_long_break = 0
               then (Inr ''long_break'', self)
               else (Inr ''short_break'', self))"

subsection \<open>Sequences of calls\<close>

text \<open>\<open>tick_n n\<close> is \<open>n\<close> successive calls of \<^verbatim>\<open>tick\<close>, as the driver's loop makes them.\<close>

fun tick_n :: "nat \<Rightarrow> timer \<Rightarrow> timer" where
  "tick_n 0 self = self"
| "tick_n (Suc n) self = tick_n n (snd (tick self))"

text \<open>
  The operations a caller can invoke on the engine, and the timer each one leaves
  behind (also when the call raised).
\<close>

datatype op = Reset | Start | Pause | SetSession string | Tick | GetNextBreakType

fun apply_op :: "op \<Rightarrow> timer \<Rightarrow> timer" where
  "apply_op Reset self = snd (reset self)"
| "apply_op Start self = start self"
| "apply_op Pause self = pause self"
| "apply_op (SetSession new_type) self = snd (set_session self new_type)"
| "apply_op Tick self = snd (tick self)"
| "apply_op GetNextBreakType self = snd (get_next_break_type self)"

fun run :: "op list \<Rightarrow> timer \<Rightarrow> timer" where
  "run [] self = self"
| "run (x # xs) self = run xs (apply_op x self)"

text \<open>The settings of \<^verbatim>\<open>TIMER_DEFAULTS\<close> in config.py.\<close>

definition TIMER_DEFAULTS :: settings where
  "TIMER_DEFAULTS = map_of [(''work_duration'', 25), (''short_break'', 5),
                            (''long_break'', 15), (''sessions_per_long_break'', 4),
                            (''auto_start'', 0)]"

definition default_timer :: timer where
  "default_timer = \<lparr>settings = TIMER_DEFAULTS, state = ''idle'', session_type = ''work'',
                     time_left = 1500, completed_sessions = 0\<rparr>"

text \<open>A configuration with one-minute work sessions and a long break after every session.\<close>

definition long_break_every_session :: settings where
  "long_break_every_session = map_of [(''work_duration'', 1), (''short_break'', 5),
                            (''long_break'', 15), (''sessions_per_long_break'', 1),
                            (''auto_start'', 0)]"

definition one_minute_timer :: timer where
  "one_minute_timer = \<lparr>settings = long_break_every_session, state = ''idle'',
                        session_type = ''work'', time_left = 60, completed_sessions = 0\<rparr>"

text \<open>
  A tick completes a work session naturally when the timer is running a work session
  with one second left: that tick takes the countdown from 1 to 0.
\<close>

definition natural_work_completion :: "timer \<Rightarrow> bool" where
  "natural_work_completion self =
     (state self = ''running'' \<and> session_type self = ''work'' \<and> time_left self = 1)"

text \<open>The number of natural work completions in a sequence of operations.\<close>

fun work_completions :: "op list \<Rightarrow> timer \<Rightarrow> nat" where
  "work_completions [] self = 0"
| "work_completions (x # xs) self =
     (if x = Tick \<and> natural_work_completion self then 1 else 0)
     + work_completions xs (apply_op x self)"

text \<open>The three durations are in the settings and positive.\<close>

definition positive_durations :: "settings \<Rightarrow> bool" where
  "positive_durations s =
     list_all (\<lambda>k. case s k of None \<Rightarrow> False | Some d \<Rightarrow> 0 < d)
       [''work_duration'', ''short_break'', ''long_break'']"

section \<open>Weekly statistics (\<^verbatim>\<open>StatsWindow._update_display\<close> of app.py)\<close>

subsection \<open>The dates and time spans of Python's \<^verbatim>\<open>datetime\<close> module\<close>

text \<open>
  A \<^verbatim>\<open>datetime.date\<close> is modelled by its proleptic Gregorian ordinal
  (\<^verbatim>\<open>date.toordinal()\<close>: day 1 is 0001-01-01), in which the library does its
  arithmetic; dates compare as their ordinals do. The dates are the ordinals from 1
  to \<open>MAXORDINAL\<close> (9999-12-31).
\<close>

type_synonym date = int

definition MAXORDINAL :: int where
  "MAXORDINAL = 3652059"

definition valid_date :: "date \<Rightarrow> bool" where
  "valid_date d = (0 < d \<and> d \<le> MAXORDINAL)"

text \<open>The constructor \<^verbatim>\<open>date(year, month, day)\<close>, with the library's own day count.\<close>

definition is_leap :: "int \<Rightarrow> bool" where
  "is_leap year = (year mod 4 = 0 \<and> (year mod 100 \<noteq> 0 \<or> year mod 400 = 0))"

definition days_before_year :: "int \<Rightarrow> int" where
  "days_before_year year =
     (let y = year - 1 in y * 365 + y div 4 - y div 100 + y div 400)"

definition DAYS_IN_MONTH :: "int list" where
  "DAYS_IN_MONTH = [-1, 31, 28, 31, 30, 31, 30, 31, 31, 30, 31, 30, 31]"

definition DAYS_BEFORE_MONTH :: "int list" where
  "DAYS_BEFORE_MONTH = [-1, 0, 31, 59, 90, 120, 151, 181, 212, 243, 273, 304, 334]"

definition days_in_month :: "int \<Rightarrow> int \<Rightarrow> int" where
  "days_in_month year month =
     (if month = 2 \<and> is_leap year then 29 else DAYS_IN_MONTH ! nat month)"

definition days_before_month :: "int \<Rightarrow> int \<Rightarrow> int" where
  "days_before_month year month =
     DAYS_BEFORE_MONTH ! nat month + (if month > 2 \<and> is_leap year then 1 else 0)"

definition ymd2ord :: "int \<Rightarrow> int \<Rightarrow> int \<Rightarrow> int" where
  "ymd2ord year month day = days_before_year year + days_before_month year month + day"

definition date_ymd :: "int \<Rightarrow> int \<Rightarrow> int \<Rightarrow> error + date" where
  "date_ymd year month day =
     (if \<not> (1 \<le> year \<and> year \<le> 9999) then Inl ValueError
      else if \<not> (1 \<le> month \<and> month \<le> 12) then Inl ValueError
      else if \<not> (1 \<le> day \<and> day \<le> days_in_month year month) then Inl ValueError
      else Inr (ymd2ord year month day))"

text \<open>\<^verbatim>\<open>date.weekday()\<close>: Monday is 0, Sunday is 6.\<close>

definition weekday :: "date \<Rightarrow> int" where
  "weekday d = (d + 6) mod 7"

text \<open>
  A \<^verbatim>\<open>timedelta\<close> built from whole days and weeks is its number of days; the
  constructor \<^verbatim>\<open>timedelta(days=..., weeks=...)\<close> refuses more than 999999999 days.
\<close>

definition timedelta :: "int \<Rightarrow> int \<Rightarrow> error + int" where
  "timedelta days weeks =
     (let d = days + weeks * 7
      in if \<bar>d\<bar> > 999999999 then Inl OverflowError else Inr d)"

text \<open>\<^verbatim>\<open>date + timedelta\<close> and \<^verbatim>\<open>date - timedelta\<close>; the result must be a date.\<close>

definition date_add :: "date \<Rightarrow> int \<Rightarrow> error + date" where
  "date_add d delta_days =
     (let o' = d + delta_days
      in if 0 < o' \<and> o' \<le> MAXORDINAL then Inr o' else Inl OverflowError)"

definition date_sub :: "date \<Rightarrow> int \<Rightarrow> error + date" where
  "date_sub d delta_days =
     (case timedelta (- delta_days) 0 of
        Inl e \<Rightarrow> Inl e
      | Inr neg \<Rightarrow> date_add d neg)"

subsection \<open>The aggregation\<close>

text \<open>
  The loop over \<^verbatim>\<open>self.sessions\<close>. A session is given by the calendar date of its
  timestamp, \<^verbatim>\<open>datetime.fromisoformat(session["timestamp"]).date()\<close>.
\<close>

fun count_sessions :: "date \<Rightarrow> date \<Rightarrow> date list \<Rightarrow> int list \<Rightarrow> int list" where
  "count_sessions start_of_week end_of_week [] counts_per_day = counts_per_day"
| "count_sessions start_of_week end_of_week (session_date # sessions) counts_per_day =
     count_sessions start_of_week end_of_week sessions
       (if start_of_week \<le> session_date \<and> session_date \<le> end_of_week
        then (let day_index = nat (weekday session_date)
              in counts_per_day[day_index := counts_per_day ! day_index + 1])
        else counts_per_day)"

text \<open>
  What \<^verbatim>\<open>_update_display\<close> writes into the window: the two dates of \<^verbatim>\<open>week_label\<close>,
  the seven numbers of \<^verbatim>\<open>count_labels\<close> and the number of \<^verbatim>\<open>total_label\<close>.
\<close>

record week_display =
  week_label_start :: date
  week_label_end :: date
  count_labels :: "int list"
  total_label :: int

text \<open>
  The sessions, the clock's \<^verbatim>\<open>datetime.now().date()\<close> and \<^verbatim>\<open>self.week_offset\<close> are the
  inputs. Every exception of the date arithmetic is an \<open>OverflowError\<close>.
\<close>

definition update_display :: "date list \<Rightarrow> date \<Rightarrow> int \<Rightarrow> error + week_display" where
  "update_display sessions today week_offset =
     (case timedelta (weekday today) 0 of Inl e \<Rightarrow> Inl e | Inr back_days \<Rightarrow>
      case date_sub today back_days of Inl e \<Rightarrow> Inl e | Inr monday \<Rightarrow>
      case timedelta 0 week_offset of Inl e \<Rightarrow> Inl e | Inr offset_days \<Rightarrow>
      case date_add monday offset_days of Inl e \<Rightarrow> Inl e | Inr start_of_week \<Rightarrow>
      case timedelta 6 0 of Inl e \<Rightarrow> Inl e | Inr six_days \<Rightarrow>
      case date_add start_of_week six_days of Inl e \<Rightarrow> Inl e | Inr end_of_week \<Rightarrow>
        (let counts_per_day = count_sessions start_of_week end_of_week sessions (replicate 7 0)
         in Inr \<lparr>week_label_start = start_of_week, week_label_end = end_of_week,
                 count_labels = counts_per_day, total_label = sum_list counts_per_day\<rparr>))"

section \<open>Properties of the timer engine\<close>

subsection \<open>Single ticks and runs of ticks\<close>

lemma init_defaults: "init TIMER_DEFAULTS = Inr default_timer"
  by (simp add: init_def reset_def TIMER_DEFAULTS_def default_timer_def)

lemma tick_not_running: "state t \<noteq> ''running'' \<Longrightarrow> tick t = (None, t)"
  by (simp add: tick_def)

lemma tick_at_zero: "time_left t \<le> 0 \<Longrightarrow> tick t = (None, t)"
  by (simp add: tick_def)

lemma tick_counting:
  "state t = ''running'' \<Longrightarrow> 1 < time_left t \<Longrightarrow> tick t = (None, t\<lparr>time_left := time_left t - 1\<rparr>)"
  by (simp add: tick_def Let_def)

lemma tick_work_complete:
  "state t = ''running'' \<Longrightarrow> time_left t = 1 \<Longrightarrow> session_type t = ''work'' \<Longrightarrow>
   tick t = (Some ''work_complete'',
             t\<lparr>time_left := 0, state := ''idle'', completed_sessions := completed_sessions t + 1\<rparr>)"
  by (simp add: tick_def Let_def)

lemma tick_break_complete:
  "state t = ''running'' \<Longrightarrow> time_left t = 1 \<Longrightarrow> session_type t \<noteq> ''work'' \<Longrightarrow>
   tick t = (Some ''break_complete'', t\<lparr>time_left := 0, state := ''idle''\<rparr>)"
  by (simp add: tick_def Let_def)

lemma tick_n_stopped: "state t \<noteq> ''running'' \<Longrightarrow> tick_n n t = t"
  by (induction n) (simp_all add: tick_not_running)

lemma tick_n_add: "tick_n (a + b) t = tick_n b (tick_n a t)"
  by (induction a arbitrary: t) simp_all

lemma tick_n_Suc_last: "tick_n (Suc n) t = snd (tick (tick_n n t))"
  using tick_n_add [of n 1 t] by simp

lemma tick_n_running:
  "state t = ''running'' \<Longrightarrow> int k < time_left t \<Longrightarrow>
   tick_n k t = t\<lparr>time_left := time_left t - int k\<rparr>"
proof (induction k arbitrary: t)
  case 0
  then show ?case by simp
next
  case (Suc k)
  from Suc.prems have big: "1 < time_left t" by simp
  let ?u = "t\<lparr>time_left := time_left t - 1\<rparr>"
  have step: "tick t = (None, ?u)"
    using Suc.prems(1) big by (rule tick_counting)
  have "tick_n k ?u = ?u\<lparr>time_left := time_left ?u - int k\<rparr>"
    using Suc.prems by (intro Suc.IH) simp_all
  then show ?case by (simp add: step)
qed

lemma reset_ok:
  "settings t ''work_duration'' = Some D \<Longrightarrow>
   reset t = (Inr (), t\<lparr>state := ''idle'', session_type := ''work'',
                         time_left := D * 60, completed_sessions := 0\<rparr>)"
  by (simp add: reset_def)

lemma fresh_work_session:
  "settings t ''work_duration'' = Some D \<Longrightarrow>
   start (snd (reset t)) = t\<lparr>state := ''running'', session_type := ''work'',
                              time_left := D * 60, completed_sessions := 0\<rparr>"
  by (simp add: reset_ok start_def)

subsection \<open>Counting down a fresh work session\<close>

text \<open>
  Claim C1. For every work duration \<open>D > 0\<close> and every tick count \<open>k\<close> with
  \<open>0 \<le> k < D * 60\<close>: from any timer whose settings give \<open>work_duration = D\<close>,
  \<^verbatim>\<open>reset()\<close> returns normally, and after \<^verbatim>\<open>start()\<close> and \<open>k\<close> calls of \<^verbatim>\<open>tick()\<close>
  the time left is \<open>D * 60 - k\<close> and the state is \<^verbatim>\<open>'running'\<close>.
\<close>

theorem countdown_after_reset_start:
  assumes "settings t ''work_duration'' = Some D" and "0 < D" and "int k < D * 60"
  shows "fst (reset t) = Inr () \<and>
         time_left (tick_n k (start (snd (reset t)))) = D * 60 - int k \<and>
         state (tick_n k (start (snd (reset t)))) = ''running''"
proof -
  define t0 where "t0 = start (snd (reset t))"
  have t0: "t0 = t\<lparr>state := ''running'', session_type := ''work'',
                    time_left := D * 60, completed_sessions := 0\<rparr>"
    unfolding t0_def using assms(1) by (rule fresh_work_session)
  have "tick_n k t0 = t0\<lparr>time_left := time_left t0 - int k\<rparr>"
    by (rule tick_n_running) (simp_all add: t0 assms(3))
  then have "time_left (tick_n k t0) = D * 60 - int k" and "state (tick_n k t0) = ''running''"
    by (simp_all add: t0)
  moreover have "fst (reset t) = Inr ()"
    by (simp add: reset_ok [OF assms(1)])
  ultimately show ?thesis
    unfolding t0_def by simp
qed

theorem countdown_after_reset_start_witness:
  "settings default_timer ''work_duration'' = Some 25 \<and> (0::int) < 25 \<and> int 7 < 25 * 60 \<and>
   fst (reset default_timer) = Inr () \<and>
   time_left (tick_n 7 (start (snd (reset default_timer)))) = 1493 \<and>
   state (tick_n 7 (start (snd (reset default_timer)))) = ''running''"
proof -
  have h: "settings default_timer ''work_duration'' = Some 25"
    by (simp add: default_timer_def TIMER_DEFAULTS_def)
  show ?thesis
    using countdown_after_reset_start [OF h, of 7] h by simp
qed

lemma init_one_minute: "init long_break_every_session = Inr one_minute_timer"
  by (simp add: init_def reset_def long_break_every_session_def one_minute_timer_def)

text \<open>
  Claim C2. For every work duration \<open>D > 0\<close>, in a fresh work session (\<^verbatim>\<open>reset()\<close> then
  \<^verbatim>\<open>start()\<close>) the first \<open>D * 60 - 1\<close> calls of \<^verbatim>\<open>tick()\<close> return no event, the
  \<open>D * 60\<close>-th call returns \<^verbatim>\<open>'work_complete'\<close>, sets the state to \<^verbatim>\<open>'idle'\<close> and takes
  \<open>completed_sessions\<close> from 0 to 1, and every later call of \<^verbatim>\<open>tick()\<close> returns no event
  and leaves the timer as the completing call left it.
\<close>

theorem work_complete_exactly_once:
  assumes "settings t ''work_duration'' = Some D" and "0 < D"
  defines "t0 \<equiv> start (snd (reset t))" and "n \<equiv> nat (D * 60)"
  shows "(\<forall>j. j < n - 1 \<longrightarrow> fst (tick (tick_n j t0)) = None) \<and>
         tick (tick_n (n - 1) t0) = (Some ''work_complete'', tick_n n t0) \<and>
         state (tick_n n t0) = ''idle'' \<and>
         completed_sessions (tick_n (n - 1) t0) = 0 \<and>
         completed_sessions (tick_n n t0) = completed_sessions (tick_n (n - 1) t0) + 1 \<and>
         (\<forall>m. tick (tick_n (n + m) t0) = (None, tick_n n t0))"
proof -
  have t0: "t0 = t\<lparr>state := ''running'', session_type := ''work'',
                    time_left := D * 60, completed_sessions := 0\<rparr>"
    unfolding t0_def using assms(1) by (rule fresh_work_session)
  have n: "int n = D * 60" and npos: "0 < n"
    using assms(2) by (simp_all add: n_def)
  have before: "time_left (tick_n k t0) = D * 60 - int k \<and> state (tick_n k t0) = ''running'' \<and>
                session_type (tick_n k t0) = ''work'' \<and> completed_sessions (tick_n k t0) = 0"
    if "k < n" for k
  proof -
    have "tick_n k t0 = t0\<lparr>time_left := time_left t0 - int k\<rparr>"
      using that n by (intro tick_n_running) (simp_all add: t0)
    then have "tick_n k t0 = t\<lparr>state := ''running'', session_type := ''work'',
                    time_left := D * 60 - int k, completed_sessions := 0\<rparr>"
      by (simp add: t0)
    then show ?thesis by simp
  qed
  have quiet: "fst (tick (tick_n j t0)) = None" if "j < n - 1" for j
  proof -
    from that have j: "j < n" and sj: "Suc j < n" by simp_all
    have "1 < time_left (tick_n j t0)"
      using sj n before [OF j] by simp
    then show ?thesis
      using before [OF j] by (simp add: tick_counting)
  qed
  define u where "u = tick_n (n - 1) t0"
  have u: "time_left u = 1" "state u = ''running''" "session_type u = ''work''"
          "completed_sessions u = 0"
    using before [of "n - 1"] npos n by (simp_all add: u_def of_nat_diff)
  have fire: "tick u = (Some ''work_complete'',
                u\<lparr>time_left := 0, state := ''idle'', completed_sessions := completed_sessions u + 1\<rparr>)"
    using u by (intro tick_work_complete)
  have "tick_n n t0 = snd (tick u)"
    using tick_n_Suc_last [of "n - 1" t0] npos by (simp add: u_def)
  then have fin: "tick_n n t0 = u\<lparr>time_left := 0, state := ''idle'', completed_sessions := 1\<rparr>"
    by (simp add: fire u)
  have idle: "state (tick_n n t0) \<noteq> ''running''"
    by (simp add: fin)
  have after: "tick (tick_n (n + m) t0) = (None, tick_n n t0)" for m
    by (simp add: tick_n_add tick_n_stopped [OF idle] tick_not_running [OF idle])
  have "tick u = (Some ''work_complete'', tick_n n t0)"
    by (simp add: fire fin u)
  moreover have "state (tick_n n t0) = ''idle''"
    by (simp add: fin)
  moreover have "completed_sessions u = 0"
    by (rule u)
  moreover have "completed_sessions (tick_n n t0) = completed_sessions u + 1"
    by (simp add: fin u)
  ultimately show ?thesis
    using quiet after unfolding u_def by blast
qed

lemma one_minute_work: "settings one_minute_timer ''work_duration'' = Some 1"
  by (simp add: one_minute_timer_def long_break_every_session_def)

theorem work_complete_exactly_once_witness:
  "settings one_minute_timer ''work_duration'' = Some 1 \<and> (0::int) < 1 \<and>
   fst (tick (tick_n 58 (start (snd (reset one_minute_timer))))) = None \<and>
   tick (tick_n 59 (start (snd (reset one_minute_timer))))
     = (Some ''work_complete'', tick_n 60 (start (snd (reset one_minute_timer)))) \<and>
   state (tick_n 60 (start (snd (reset one_minute_timer)))) = ''idle'' \<and>
   completed_sessions (tick_n 60 (start (snd (reset one_minute_timer)))) = 1 \<and>
   tick (tick_n (60 + 5) (start (snd (reset one_minute_timer))))
     = (None, tick_n 60 (start (snd (reset one_minute_timer))))"
proof -
  have a: "(0::int) < 1" by simp
  have n: "nat (1 * 60) = 60" by simp
  note c = work_complete_exactly_once [OF one_minute_work a, unfolded n]
  from c have late: "tick (tick_n (60 + 5) (start (snd (reset one_minute_timer))))
     = (None, tick_n 60 (start (snd (reset one_minute_timer))))"
    by blast
  show ?thesis
    using c late one_minute_work by simp
qed

subsection \<open>Starting and pausing\<close>

text \<open>
  Claim C7. \<^verbatim>\<open>start()\<close> sets the state to \<^verbatim>\<open>'running'\<close> when it is not \<^verbatim>\<open>'running'\<close> and
  changes nothing when the timer is already running; the state is \<^verbatim>\<open>'running'\<close>
  afterwards in every case, and \<open>time_left\<close>, \<open>session_type\<close>, \<open>completed_sessions\<close> (and
  the settings) are never changed.
\<close>

theorem start_sets_running_only:
  "start t = (if state t \<noteq> ''running'' then t\<lparr>state := ''running''\<rparr> else t) \<and>
   (state t = ''running'' \<longrightarrow> start t = t) \<and>
   state (start t) = ''running'' \<and>
   time_left (start t) = time_left t \<and>
   session_type (start t) = session_type t \<and>
   completed_sessions (start t) = completed_sessions t \<and>
   settings (start t) = settings t"
  by (simp add: start_def)

theorem start_sets_running_only_witness:
  "state default_timer \<noteq> ''running'' \<and>
   start default_timer = default_timer\<lparr>state := ''running''\<rparr> \<and>
   start (start default_timer) = start default_timer \<and>
   time_left (start default_timer) = 1500 \<and>
   session_type (start default_timer) = ''work'' \<and>
   completed_sessions (start default_timer) = 0"
proof -
  have idle: "state default_timer \<noteq> ''running''"
    by (simp add: default_timer_def)
  have fields: "time_left default_timer = 1500" "session_type default_timer = ''work''"
    "completed_sessions default_timer = 0"
    by (simp_all add: default_timer_def)
  show ?thesis
    using start_sets_running_only [of default_timer]
          start_sets_running_only [of "start default_timer"] idle fields
    by simp
qed

text \<open>
  Claim C5. \<^verbatim>\<open>pause()\<close> sets the state to \<^verbatim>\<open>'paused'\<close> exactly when the state was
  \<^verbatim>\<open>'running'\<close> and changes nothing otherwise (also when idle); it never changes
  \<open>time_left\<close>, \<open>session_type\<close> or \<open>completed_sessions\<close>. After \<^verbatim>\<open>pause()\<close>, any number
  of \<^verbatim>\<open>tick()\<close> calls returns no event, changes no field, and so leaves \<open>time_left\<close> as
  it was.
\<close>

theorem pause_freezes_countdown:
  "pause t = (if state t = ''running'' then t\<lparr>state := ''paused''\<rparr> else t) \<and>
   (state (pause t) = ''paused'' \<and> state t \<noteq> ''paused'' \<longleftrightarrow> state t = ''running'') \<and>
   (state t \<noteq> ''running'' \<longrightarrow> pause t = t) \<and>
   time_left (pause t) = time_left t \<and>
   session_type (pause t) = session_type t \<and>
   completed_sessions (pause t) = completed_sessions t \<and>
   tick (tick_n n (pause t)) = (None, pause t) \<and>
   tick_n n (pause t) = pause t \<and>
   time_left (tick_n n (pause t)) = time_left t"
proof -
  have stopped: "state (pause t) \<noteq> ''running''"
    by (simp add: pause_def)
  have frozen: "tick_n n (pause t) = pause t"
    using stopped by (rule tick_n_stopped)
  have "tick (tick_n n (pause t)) = (None, pause t)"
    unfolding frozen using stopped by (rule tick_not_running)
  moreover have "time_left (pause t) = time_left t"
    by (simp add: pause_def)
  moreover have "state (pause t) = ''paused'' \<and> state t \<noteq> ''paused'' \<longleftrightarrow> state t = ''running''"
    by (auto simp add: pause_def)
  ultimately show ?thesis
    by (simp add: frozen) (simp add: pause_def)
qed

theorem pause_freezes_countdown_witness:
  "state (start default_timer) = ''running'' \<and>
   state (pause (start default_timer)) = ''paused'' \<and>
   state default_timer \<noteq> ''running'' \<and>
   pause default_timer = default_timer \<and>
   time_left (tick_n 10 (pause (start default_timer))) = time_left (start default_timer)"
proof -
  have running: "state (start default_timer) = ''running''"
    and idle: "state default_timer \<noteq> ''running''"
    by (simp_all add: start_def default_timer_def)
  from running pause_freezes_countdown [of "start default_timer" 10]
  have "state (pause (start default_timer)) = ''paused''"
    and "time_left (tick_n 10 (pause (start default_timer))) = time_left (start default_timer)"
    by blast+
  moreover from idle pause_freezes_countdown [of default_timer 0]
  have "pause default_timer = default_timer"
    by blast
  ultimately show ?thesis
    using running idle by blast
qed

subsection \<open>Switching the session type\<close>

lemma key_map_valid:
  "key_map ''work'' = Some ''work_duration''"
  "key_map ''short_break'' = Some ''short_break''"
  "key_map ''long_break'' = Some ''long_break''"
  by (simp_all add: key_map_def)

lemma key_map_invalid:
  "s \<notin> {''work'', ''short_break'', ''long_break''} \<Longrightarrow> key_map s = None"
  by (simp add: key_map_def)

lemma set_session_found:
  "key_map new_type = Some k \<Longrightarrow> settings t k = Some d \<Longrightarrow>
   set_session t new_type
     = (Inr (), t\<lparr>state := ''idle'', session_type := new_type, time_left := d * 60\<rparr>)"
  by (simp add: set_session_def get_duration_for_session_def)

text \<open>
  Claim C6. For every timer and every \<open>new_type\<close> among \<^verbatim>\<open>'work'\<close>, \<^verbatim>\<open>'short_break'\<close> and
  \<^verbatim>\<open>'long_break'\<close> whose duration \<open>d\<close> (in minutes) is in the settings,
  \<^verbatim>\<open>set_session(new_type)\<close> returns normally, sets the state to \<^verbatim>\<open>'idle'\<close>, the session
  type to \<open>new_type\<close> and \<open>time_left\<close> to \<open>d * 60\<close>, whatever \<open>time_left\<close> was before, and
  leaves \<open>completed_sessions\<close> unchanged.
\<close>

theorem set_session_resets_countdown:
  assumes "(new_type, k) \<in> {(''work'', ''work_duration''), (''short_break'', ''short_break''),
                              (''long_break'', ''long_break'')}"
    and "settings t k = Some d"
  shows "set_session t new_type
           = (Inr (), t\<lparr>state := ''idle'', session_type := new_type, time_left := d * 60\<rparr>) \<and>
         state (snd (set_session t new_type)) = ''idle'' \<and>
         session_type (snd (set_session t new_type)) = new_type \<and>
         time_left (snd (set_session t new_type)) = d * 60 \<and>
         completed_sessions (snd (set_session t new_type)) = completed_sessions t \<and>
         set_session (t\<lparr>time_left := x\<rparr>) new_type = set_session t new_type"
proof -
  from assms(1) have "key_map new_type = Some k"
    by (auto simp add: key_map_valid)
  then have "set_session u new_type
     = (Inr (), u\<lparr>state := ''idle'', session_type := new_type, time_left := d * 60\<rparr>)"
    if "settings u k = Some d" for u
    using that by (rule set_session_found)
  from this [of t] this [of "t\<lparr>time_left := x\<rparr>"] assms(2) show ?thesis
    by simp
qed

theorem set_session_resets_countdown_witness:
  "settings (tick_n 7 (start default_timer)) ''short_break'' = Some 5 \<and>
   time_left (tick_n 7 (start default_timer)) = 1493 \<and>
   set_session (tick_n 7 (start default_timer)) ''short_break''
     = (Inr (), default_timer\<lparr>session_type := ''short_break'', time_left := 300\<rparr>)"
proof -
  have t: "tick_n 7 (start default_timer) = default_timer\<lparr>state := ''running'', time_left := 1493\<rparr>"
    using tick_n_running [of "start default_timer" 7]
    by (simp add: start_def default_timer_def)
  have s: "settings (tick_n 7 (start default_timer)) ''short_break'' = Some 5"
    by (simp add: t) (simp add: default_timer_def TIMER_DEFAULTS_def)
  have k: "(''short_break'', ''short_break'') \<in> {(''work'', ''work_duration''),
             (''short_break'', ''short_break''), (''long_break'', ''long_break'')}"
    by simp
  have "set_session (tick_n 7 (start default_timer)) ''short_break''
     = (Inr (), (tick_n 7 (start default_timer))\<lparr>state := ''idle'',
                  session_type := ''short_break'', time_left := 5 * 60\<rparr>)"
    using set_session_resets_countdown [OF k s] by blast
  then show ?thesis
    using s by (simp add: t) (simp add: default_timer_def)
qed

text \<open>
  Claim C10. For every string \<open>s\<close> other than \<^verbatim>\<open>'work'\<close>, \<^verbatim>\<open>'short_break'\<close> and
  \<^verbatim>\<open>'long_break'\<close>, \<^verbatim>\<open>set_session(s)\<close> raises \<^verbatim>\<open>KeyError(s)\<close> from the lookup in
  \<^verbatim>\<open>key_map\<close>, after it has set the state to \<^verbatim>\<open>'idle'\<close> and the session type to \<open>s\<close>; the
  timer keeps the invalid session type and its old \<open>time_left\<close>.
\<close>

theorem set_session_invalid_type:
  assumes "s \<notin> {''work'', ''short_break'', ''long_break''}"
  shows "set_session t s = (Inl (KeyError s), t\<lparr>state := ''idle'', session_type := s\<rparr>) \<and>
         state (snd (set_session t s)) = ''idle'' \<and>
         session_type (snd (set_session t s)) = s \<and>
         time_left (snd (set_session t s)) = time_left t"
proof -
  have "key_map s = None"
    using assms by (rule key_map_invalid)
  then have "set_session t s = (Inl (KeyError s), t\<lparr>state := ''idle'', session_type := s\<rparr>)"
    by (simp add: set_session_def get_duration_for_session_def)
  then show ?thesis by simp
qed

theorem set_session_invalid_type_witness:
  "''nap'' \<notin> {''work'', ''short_break'', ''long_break''} \<and>
   set_session default_timer ''nap''
     = (Inl (KeyError ''nap''), default_timer\<lparr>state := ''idle'', session_type := ''nap''\<rparr>) \<and>
   time_left (snd (set_session default_timer ''nap'')) = time_left default_timer"
proof -
  have h: "''nap'' \<notin> {''work'', ''short_break'', ''long_break''}" by simp
  show ?thesis
    using set_session_invalid_type [OF h, of default_timer] h by blast
qed

subsection \<open>The next break\<close>

lemma fresh_session_completes:
  assumes "settings t ''work_duration'' = Some D" and "0 < D"
  shows "tick_n (nat (D * 60)) (start (snd (reset t)))
           = t\<lparr>state := ''idle'', session_type := ''work'', time_left := 0,
                completed_sessions := 1\<rparr>"
proof -
  define t0 where "t0 = start (snd (reset t))"
  define m where "m = nat (D * 60) - 1"
  have t0: "t0 = t\<lparr>state := ''running'', session_type := ''work'',
                    time_left := D * 60, completed_sessions := 0\<rparr>"
    unfolding t0_def using assms(1) by (rule fresh_work_session)
  have m: "int m = D * 60 - 1" and n: "nat (D * 60) = Suc m"
    using assms(2) by (simp_all add: m_def)
  have "tick_n m t0 = t0\<lparr>time_left := time_left t0 - int m\<rparr>"
    by (rule tick_n_running) (simp_all add: t0 m)
  then have u: "tick_n m t0 = t\<lparr>state := ''running'', session_type := ''work'',
                    time_left := 1, completed_sessions := 0\<rparr>"
    by (simp add: t0 m)
  have "tick_n (Suc m) t0 = snd (tick (tick_n m t0))"
    by (rule tick_n_Suc_last)
  also have "\<dots> = t\<lparr>state := ''idle'', session_type := ''work'', time_left := 0,
                      completed_sessions := 1\<rparr>"
    unfolding u by (simp add: tick_work_complete)
  finally show ?thesis
    unfolding n t0_def .
qed

text \<open>
  Claim C3, as amended. For every timer with \<open>completed_sessions = c \<ge> 0\<close> and every
  setting \<open>n = sessions_per_long_break > 0\<close>, \<^verbatim>\<open>get_next_break_type()\<close> returns
  \<^verbatim>\<open>'short_break'\<close> when \<open>c = 0\<close>, \<^verbatim>\<open>'long_break'\<close> when \<open>c > 0\<close> and \<open>c mod n = 0\<close>, and
  \<^verbatim>\<open>'short_break'\<close> otherwise, and it leaves the timer as it was. Only while no work
  session has completed (\<open>c = 0\<close>) is the answer a short break whatever \<open>n\<close> is: after
  the very first completed work session \<open>c\<close> is 1, and the answer is \<^verbatim>\<open>'long_break'\<close>
  when \<open>n = 1\<close> and \<^verbatim>\<open>'short_break'\<close> when \<open>n > 1\<close>.
\<close>

theorem next_break_type_rule:
  assumes "settings t ''sessions_per_long_break'' = Some n" and "0 < n"
    and "0 \<le> completed_sessions t"
  shows "(completed_sessions t = 0 \<longrightarrow> fst (get_next_break_type t) = Inr ''short_break'') \<and>
         (0 < completed_sessions t \<and> completed_sessions t mod n = 0 \<longrightarrow>
            fst (get_next_break_type t) = Inr ''long_break'') \<and>
         (completed_sessions t \<noteq> 0 \<and> \<not> (0 < completed_sessions t \<and> completed_sessions t mod n = 0) \<longrightarrow>
            fst (get_next_break_type t) = Inr ''short_break'') \<and>
         snd (get_next_break_type t) = t \<and>
         (\<forall>D. settings t ''work_duration'' = Some D \<and> 0 < D \<longrightarrow>
            completed_sessions (tick_n (nat (D * 60)) (start (snd (reset t)))) = 1 \<and>
            fst (get_next_break_type (tick_n (nat (D * 60)) (start (snd (reset t)))))
              = Inr (if n = 1 then ''long_break'' else ''short_break''))"
proof -
  have rule: "get_next_break_type u
      = (Inr (if completed_sessions u = 0 then ''short_break''
              else if completed_sessions u mod n = 0 then ''long_break''
              else ''short_break''), u)"
    if "settings u ''sessions_per_long_break'' = Some n" for u
    using that assms(2) by (simp add: get_next_break_type_def)
  have first: "completed_sessions (tick_n (nat (D * 60)) (start (snd (reset t)))) = 1 \<and>
            fst (get_next_break_type (tick_n (nat (D * 60)) (start (snd (reset t)))))
              = Inr (if n = 1 then ''long_break'' else ''short_break'')"
    if "settings t ''work_duration'' = Some D" and "0 < D" for D
  proof -
    define t1 where "t1 = tick_n (nat (D * 60)) (start (snd (reset t)))"
    have t1: "t1 = t\<lparr>state := ''idle'', session_type := ''work'', time_left := 0,
                      completed_sessions := 1\<rparr>"
      unfolding t1_def using that by (rule fresh_session_completes)
    have c: "completed_sessions t1 = 1" and s: "settings t1 ''sessions_per_long_break'' = Some n"
      by (simp_all add: t1 assms(1))
    have "(1 mod n = 0) = (n = 1)"
      using assms(2) by (cases "n = 1") (simp_all add: mod_pos_pos_trivial)
    then have "fst (get_next_break_type t1) = Inr (if n = 1 then ''long_break'' else ''short_break'')"
      by (simp add: rule [OF s] c)
    with c show ?thesis
      unfolding t1_def by simp
  qed
  have "snd (get_next_break_type t) = t"
    by (simp add: rule [OF assms(1)])
  moreover have "fst (get_next_break_type t)
      = Inr (if completed_sessions t = 0 then ''short_break''
              else if completed_sessions t mod n = 0 then ''long_break''
              else ''short_break'')"
    by (simp add: rule [OF assms(1)])
  ultimately show ?thesis
    using first assms(3) by auto
qed

lemma one_minute_cadence: "settings one_minute_timer ''sessions_per_long_break'' = Some 1"
  by (simp add: one_minute_timer_def long_break_every_session_def)

theorem next_break_type_rule_witness:
  "settings one_minute_timer ''sessions_per_long_break'' = Some 1 \<and> (0::int) < 1 \<and>
   0 \<le> completed_sessions one_minute_timer \<and>
   completed_sessions one_minute_timer = 0 \<and>
   settings one_minute_timer ''work_duration'' = Some 1 \<and>
   get_next_break_type one_minute_timer = (Inr ''short_break'', one_minute_timer) \<and>
   completed_sessions (tick_n 60 (start (snd (reset one_minute_timer)))) = 1 \<and>
   fst (get_next_break_type (tick_n 60 (start (snd (reset one_minute_timer))))) = Inr ''long_break''"
proof -
  have a: "(0::int) < 1" by simp
  have c: "completed_sessions one_minute_timer = 0"
    by (simp add: one_minute_timer_def)
  then have b: "0 \<le> completed_sessions one_minute_timer" by simp
  note r = next_break_type_rule [OF one_minute_cadence a b]
  from r one_minute_work a have
    "completed_sessions (tick_n (nat (1 * 60)) (start (snd (reset one_minute_timer)))) = 1 \<and>
     fst (get_next_break_type (tick_n (nat (1 * 60)) (start (snd (reset one_minute_timer)))))
       = Inr (if (1::int) = 1 then ''long_break'' else ''short_break'')"
    by blast
  then have "completed_sessions (tick_n 60 (start (snd (reset one_minute_timer)))) = 1 \<and>
     fst (get_next_break_type (tick_n 60 (start (snd (reset one_minute_timer))))) = Inr ''long_break''"
    by simp
  moreover from r c have "get_next_break_type one_minute_timer = (Inr ''short_break'', one_minute_timer)"
    by (simp add: prod_eq_iff)
  ultimately show ?thesis
    using one_minute_cadence one_minute_work c by simp
qed

theorem first_completed_session_long_break_counterexample:
  "init long_break_every_session = Inr one_minute_timer \<and>
   fst (tick (tick_n 59 (start one_minute_timer))) = Some ''work_complete'' \<and>
   completed_sessions (tick_n 60 (start one_minute_timer)) = 1 \<and>
   fst (get_next_break_type (tick_n 60 (start one_minute_timer))) = Inr ''long_break'' \<and>
   fst (get_next_break_type (tick_n 60 (start one_minute_timer))) \<noteq> Inr ''short_break''"
proof -
  have "fst (tick (tick_n 59 (start one_minute_timer))) = Some ''work_complete''"
    by code_simp
  moreover have "completed_sessions (tick_n 60 (start one_minute_timer)) = 1"
    by code_simp
  moreover have "fst (get_next_break_type (tick_n 60 (start one_minute_timer))) = Inr ''long_break''"
    by code_simp
  ultimately show ?thesis
    using init_one_minute by simp
qed

subsection \<open>The counter of completed work sessions\<close>

lemma tick_completed_sessions:
  "completed_sessions (snd (tick t))
     = (if natural_work_completion t then completed_sessions t + 1 else completed_sessions t)"
  by (simp add: tick_def natural_work_completion_def Let_def)

lemma reset_completed_sessions:
  "completed_sessions (snd (reset t)) = 0 \<or>
   (settings t ''work_duration'' = None \<and> completed_sessions (snd (reset t)) = completed_sessions t)"
  by (simp add: reset_def Let_def split: option.split)

lemma set_session_completed_sessions:
  "completed_sessions (snd (set_session t s)) = completed_sessions t"
  by (simp add: set_session_def Let_def split: sum.split)

lemma get_next_break_type_pure: "snd (get_next_break_type t) = t"
  by (simp add: get_next_break_type_def split: option.split)

lemma apply_op_completed_sessions:
  "x \<noteq> Reset \<Longrightarrow>
   completed_sessions (apply_op x t)
     = completed_sessions t + (if x = Tick \<and> natural_work_completion t then 1 else 0)"
  by (cases x)
     (simp_all add: start_def pause_def tick_completed_sessions
        set_session_completed_sessions get_next_break_type_pure)

lemma run_completed_sessions:
  "Reset \<notin> set xs \<Longrightarrow>
   completed_sessions (run xs t) = completed_sessions t + int (work_completions xs t)"
proof (induction xs arbitrary: t)
  case Nil
  then show ?case by simp
next
  case (Cons x xs)
  then have "x \<noteq> Reset" and "Reset \<notin> set xs" by auto
  then show ?case
    using Cons.IH [of "apply_op x t"] apply_op_completed_sessions [of x t] by simp
qed

text \<open>The counter is never negative in a timer that was constructed and then operated.\<close>

lemma apply_op_completed_sessions_nonneg:
  "0 \<le> completed_sessions t \<Longrightarrow> 0 \<le> completed_sessions (apply_op x t)"
proof (cases "x = Reset")
  case True
  assume "0 \<le> completed_sessions t"
  then show ?thesis
    using True reset_completed_sessions [of t] by auto
next
  case False
  assume "0 \<le> completed_sessions t"
  then show ?thesis
    using apply_op_completed_sessions [OF False, of t] by simp
qed

lemma run_completed_sessions_nonneg:
  "0 \<le> completed_sessions t \<Longrightarrow> 0 \<le> completed_sessions (run xs t)"
  by (induction xs arbitrary: t) (simp_all add: apply_op_completed_sessions_nonneg)

lemma reachable_completed_sessions_nonneg:
  "init s = Inr t0 \<Longrightarrow> 0 \<le> completed_sessions (run xs t0)"
  by (rule run_completed_sessions_nonneg)
     (auto simp add: init_def reset_def Let_def split: option.splits)

text \<open>
  Claim C8. Over every sequence of engine operations, \<open>completed_sessions\<close> grows only
  at a tick that takes a running work session's countdown from 1 to 0, and then by
  exactly 1 (that tick returns \<^verbatim>\<open>'work_complete'\<close>); a tick that completes a break and
  every other operation but \<^verbatim>\<open>reset()\<close> leave it unchanged; \<^verbatim>\<open>reset()\<close> sets it to 0
  (or, when it raises for a missing \<^verbatim>\<open>work_duration\<close>, leaves it unchanged). So along
  a sequence without \<^verbatim>\<open>reset()\<close> the counter grows by the number of natural work
  completions.
\<close>

theorem completed_sessions_counts_work_completions:
  "(natural_work_completion t \<longrightarrow>
      fst (tick t) = Some ''work_complete'' \<and>
      completed_sessions (apply_op Tick t) = completed_sessions t + 1) \<and>
   (\<not> natural_work_completion t \<longrightarrow>
      fst (tick t) \<noteq> Some ''work_complete'' \<and>
      completed_sessions (apply_op Tick t) = completed_sessions t) \<and>
   (x \<notin> {Reset, Tick} \<longrightarrow> completed_sessions (apply_op x t) = completed_sessions t) \<and>
   (completed_sessions (apply_op Reset t) = 0 \<or>
    completed_sessions (apply_op Reset t) = completed_sessions t) \<and>
   (settings t ''work_duration'' \<noteq> None \<longrightarrow> completed_sessions (apply_op Reset t) = 0) \<and>
   (Reset \<notin> set xs \<longrightarrow>
      completed_sessions (run xs t) = completed_sessions t + int (work_completions xs t))"
proof -
  have "fst (tick t) = Some ''work_complete''" if "natural_work_completion t"
    using that by (simp add: natural_work_completion_def tick_work_complete)
  moreover have "fst (tick t) \<noteq> Some ''work_complete''" if "\<not> natural_work_completion t"
    using that by (auto simp add: natural_work_completion_def tick_def Let_def)
  moreover have "completed_sessions (apply_op x t) = completed_sessions t" if "x \<notin> {Reset, Tick}"
    using that apply_op_completed_sessions [of x t] by simp
  moreover have "completed_sessions (apply_op Reset t) = 0" if "settings t ''work_duration'' \<noteq> None"
    using that reset_completed_sessions [of t] by auto
  moreover have "completed_sessions (apply_op Reset t) = 0 \<or>
    completed_sessions (apply_op Reset t) = completed_sessions t"
    using reset_completed_sessions [of t] by auto
  ultimately show ?thesis
    using run_completed_sessions [of xs t] by (simp add: tick_completed_sessions)
qed


theorem completed_sessions_counts_work_completions_witness:
  "natural_work_completion (tick_n 59 (start one_minute_timer)) \<and>
   fst (tick (tick_n 59 (start one_minute_timer))) = Some ''work_complete'' \<and>
   completed_sessions (apply_op Tick (tick_n 59 (start one_minute_timer)))
     = completed_sessions (tick_n 59 (start one_minute_timer)) + 1 \<and>
   \<not> natural_work_completion one_minute_timer \<and>
   completed_sessions (apply_op Tick one_minute_timer) = completed_sessions one_minute_timer \<and>
   Pause \<notin> {Reset, Tick} \<and>
   completed_sessions (apply_op Pause one_minute_timer) = completed_sessions one_minute_timer \<and>
   settings one_minute_timer ''work_duration'' \<noteq> None \<and>
   completed_sessions (apply_op Reset one_minute_timer) = 0 \<and>
   Reset \<notin> set [Start, Tick, Pause] \<and>
   completed_sessions (run [Start, Tick, Pause] one_minute_timer)
     = completed_sessions one_minute_timer + int (work_completions [Start, Tick, Pause] one_minute_timer)"
proof -
  have last: "natural_work_completion (tick_n 59 (start one_minute_timer))"
    by code_simp
  have idle: "\<not> natural_work_completion one_minute_timer"
    by (simp add: natural_work_completion_def one_minute_timer_def)
  have wd: "settings one_minute_timer ''work_duration'' \<noteq> None"
    by (simp add: one_minute_work)
  have p: "Pause \<notin> {Reset, Tick}" and r: "Reset \<notin> set [Start, Tick, Pause]"
    by simp_all
  show ?thesis
    using completed_sessions_counts_work_completions
            [of "tick_n 59 (start one_minute_timer)" Pause "[]"]
          completed_sessions_counts_work_completions
            [of one_minute_timer Pause "[Start, Tick, Pause]"]
          last idle wd p r
    by blast
qed

subsection \<open>The countdown never goes negative\<close>

lemma positive_durations_iff:
  "positive_durations s \<longleftrightarrow>
     (\<exists>w b l. s ''work_duration'' = Some w \<and> 0 < w \<and> s ''short_break'' = Some b \<and> 0 < b \<and>
              s ''long_break'' = Some l \<and> 0 < l)"
  by (auto simp add: positive_durations_def split: option.splits)

lemma key_map_range:
  "key_map s = Some k \<Longrightarrow> k \<in> {''work_duration'', ''short_break'', ''long_break''}"
  by (auto simp add: key_map_def split: if_splits)

lemma apply_op_settings: "settings (apply_op x t) = settings t"
  by (cases x)
     (simp_all add: reset_def start_def pause_def set_session_def tick_def
        get_next_break_type_pure Let_def split: option.split sum.split)

lemma tick_time_left:
  "snd (tick t) = t \<or> (0 < time_left t \<and> time_left (snd (tick t)) = time_left t - 1)"
  by (simp add: tick_def Let_def)

lemma reset_time_left:
  "positive_durations (settings t) \<Longrightarrow> 0 \<le> time_left (snd (reset t))"
  by (auto simp add: positive_durations_iff reset_def Let_def)

lemma set_session_time_left:
  assumes "positive_durations (settings t)" and "0 \<le> time_left t"
  shows "0 \<le> time_left (snd (set_session t s))"
proof (cases "key_map s")
  case None
  then show ?thesis
    using assms(2) by (simp add: set_session_def get_duration_for_session_def)
next
  case (Some k)
  then have "k \<in> {''work_duration'', ''short_break'', ''long_break''}"
    by (rule key_map_range)
  with assms(1) obtain d where "settings t k = Some d" and "0 < d"
    by (auto simp add: positive_durations_iff)
  with Some show ?thesis
    by (simp add: set_session_found)
qed

lemma apply_op_time_left:
  assumes "positive_durations (settings t)" and "0 \<le> time_left t"
  shows "0 \<le> time_left (apply_op x t)"
proof (cases x)
  case Reset
  then show ?thesis using assms(1) by (simp add: reset_time_left)
next
  case Start
  then show ?thesis using assms(2) by (simp add: start_def)
next
  case Pause
  then show ?thesis using assms(2) by (simp add: pause_def)
next
  case (SetSession s)
  then show ?thesis using assms by (simp add: set_session_time_left)
next
  case Tick
  then show ?thesis using assms(2) tick_time_left [of t] by auto
next
  case GetNextBreakType
  then show ?thesis using assms(2) by (simp add: get_next_break_type_pure)
qed

lemma run_time_left:
  "positive_durations (settings t) \<Longrightarrow> 0 \<le> time_left t \<Longrightarrow> 0 \<le> time_left (run ops t)"
proof (induction ops arbitrary: t)
  case Nil
  then show ?case by simp
next
  case (Cons x ops)
  have "positive_durations (settings (apply_op x t))"
    using Cons.prems(1) by (simp add: apply_op_settings)
  moreover have "0 \<le> time_left (apply_op x t)"
    using Cons.prems by (rule apply_op_time_left)
  ultimately show ?case
    by (simp add: Cons.IH)
qed

lemma init_fresh:
  "init s = Inr t0 \<Longrightarrow>
   \<exists>D. s ''work_duration'' = Some D \<and>
       t0 = \<lparr>settings = s, state = ''idle'', session_type = ''work'',
             time_left = D * 60, completed_sessions = 0\<rparr>"
  by (auto simp add: init_def reset_def Let_def split: option.splits)

text \<open>
  Claim C9. From a timer freshly constructed on settings with positive durations,
  after every sequence of \<^verbatim>\<open>reset\<close>, \<^verbatim>\<open>start\<close>, \<^verbatim>\<open>pause\<close>, \<^verbatim>\<open>set_session\<close>, \<^verbatim>\<open>tick\<close> and
  \<^verbatim>\<open>get_next_break_type\<close> calls (and so after every operation of the sequence)
  \<open>time_left \<ge> 0\<close>; a tick either changes nothing or decrements a positive \<open>time_left\<close>
  by one. The bound also holds when a \<^verbatim>\<open>set_session\<close> is given an invalid type, since
  that call leaves \<open>time_left\<close> as it was.
\<close>

theorem time_left_never_negative:
  assumes "init s = Inr t0" and "positive_durations s"
  shows "0 \<le> time_left (run ops t0) \<and>
         (\<forall>n. 0 \<le> time_left (run (take n ops) t0)) \<and>
         (snd (tick t) = t \<or> (0 < time_left t \<and> time_left (snd (tick t)) = time_left t - 1))"
proof -
  from assms(1) obtain D where D: "s ''work_duration'' = Some D"
    and t0: "t0 = \<lparr>settings = s, state = ''idle'', session_type = ''work'',
                    time_left = D * 60, completed_sessions = 0\<rparr>"
    using init_fresh by blast
  from assms(2) D have "0 < D"
    by (auto simp add: positive_durations_iff)
  then have start: "positive_durations (settings t0)" "0 \<le> time_left t0"
    using assms(2) by (simp_all add: t0)
  have "0 \<le> time_left (run xs t0)" for xs
    using start by (rule run_time_left)
  then show ?thesis
    using tick_time_left [of t] by blast
qed

theorem time_left_never_negative_witness:
  "init TIMER_DEFAULTS = Inr default_timer \<and> positive_durations TIMER_DEFAULTS \<and>
   0 \<le> time_left (run [Start, Tick, SetSession ''short_break'', Start, Tick] default_timer) \<and>
   0 \<le> time_left (run (take 2 [Start, Tick, SetSession ''short_break'', Start, Tick]) default_timer)"
proof -
  have p: "positive_durations TIMER_DEFAULTS"
    by (simp add: positive_durations_def TIMER_DEFAULTS_def)
  show ?thesis
    using time_left_never_negative [OF init_defaults p,
            of "[Start, Tick, SetSession ''short_break'', Start, Tick]"]
          init_defaults p
    by blast
qed

section \<open>Properties of the weekly statistics\<close>

subsection \<open>Dates and weekdays\<close>

lemma june_2024:
  "date_ymd 2024 6 3 = Inr 739040" "date_ymd 2024 6 5 = Inr 739042"
  "date_ymd 2024 6 9 = Inr 739046"
  by (simp_all add: date_ymd_def ymd2ord_def days_before_year_def days_before_month_def
        days_in_month_def is_leap_def DAYS_IN_MONTH_def DAYS_BEFORE_MONTH_def
        nat_numeral)

lemma weekday_range: "0 \<le> weekday d \<and> weekday d < 7"
  by (simp add: weekday_def)

lemma monday_before:
  "weekday (d - weekday d) = 0 \<and> d - weekday d \<le> d \<and> d < d - weekday d + 7"
  unfolding weekday_def by presburger

lemma monday_is_date: "valid_date d \<Longrightarrow> valid_date (d - weekday d)"
  unfolding valid_date_def weekday_def by presburger

lemma weekday_shift: "weekday (d + 7 * k) = weekday d"
proof -
  have "d + 7 * k + 6 = d + 6 + 7 * k" by simp
  then show ?thesis
    unfolding weekday_def by (simp only: mod_mult_self2)
qed

lemma weekday_in_week:
  assumes "weekday s = 0" and "s \<le> d" and "d \<le> s + 6"
  shows "weekday d = d - s"
proof -
  have "(d + 6) mod 7 = ((d - s) + (s + 6)) mod 7" by simp
  also have "\<dots> = ((d - s) + (s + 6) mod 7) mod 7"
    by (simp only: mod_add_right_eq)
  also have "\<dots> = (d - s) mod 7"
    using assms(1) by (simp add: weekday_def)
  also have "\<dots> = d - s"
    using assms(2,3) by simp
  finally show ?thesis
    by (simp add: weekday_def)
qed

subsection \<open>The counting loop\<close>

lemma sum_list_increment:
  "i < length xs \<Longrightarrow> sum_list (xs[i := xs ! i + 1]) = sum_list xs + (1::int)"
proof (induction xs arbitrary: i)
  case Nil
  then show ?case by simp
next
  case (Cons x xs)
  then show ?case by (cases i) simp_all
qed

lemma count_sessions_length: "length (count_sessions s e ds c) = length c"
  by (induction ds arbitrary: c) (simp_all add: Let_def)

lemma count_sessions_nth:
  "length c = 7 \<Longrightarrow> i < 7 \<Longrightarrow>
   count_sessions s e ds c ! i
     = c ! i + int (length (filter (\<lambda>d. s \<le> d \<and> d \<le> e \<and> weekday d = int i) ds))"
proof (induction ds arbitrary: c)
  case Nil
  then show ?case by simp
next
  case (Cons d ds)
  let ?j = "nat (weekday d)"
  have j: "?j < 7" and ji: "(?j = i) = (weekday d = int i)"
    using weekday_range [of d] by auto
  show ?case
  proof (cases "s \<le> d \<and> d \<le> e")
    case True
    have "count_sessions s e (d # ds) c ! i = count_sessions s e ds (c[?j := c ! ?j + 1]) ! i"
      using True by (simp add: Let_def)
    also have "\<dots> = c[?j := c ! ?j + 1] ! i
        + int (length (filter (\<lambda>d. s \<le> d \<and> d \<le> e \<and> weekday d = int i) ds))"
      using Cons.prems by (intro Cons.IH) simp_all
    also have "c[?j := c ! ?j + 1] ! i = c ! i + (if weekday d = int i then 1 else 0)"
      using j ji Cons.prems by (simp add: nth_list_update)
    finally show ?thesis
      using True by simp
  next
    case False
    then show ?thesis
      using Cons.IH [OF Cons.prems] by auto
  qed
qed

lemma count_sessions_sum:
  "length c = 7 \<Longrightarrow>
   sum_list (count_sessions s e ds c)
     = sum_list c + int (length (filter (\<lambda>d. s \<le> d \<and> d \<le> e) ds))"
proof (induction ds arbitrary: c)
  case Nil
  then show ?case by simp
next
  case (Cons d ds)
  let ?j = "nat (weekday d)"
  have j: "?j < length c"
    using weekday_range [of d] Cons.prems by auto
  show ?case
  proof (cases "s \<le> d \<and> d \<le> e")
    case True
    have "sum_list (count_sessions s e (d # ds) c)
        = sum_list (count_sessions s e ds (c[?j := c ! ?j + 1]))"
      using True by (simp add: Let_def)
    also have "\<dots> = sum_list (c[?j := c ! ?j + 1])
        + int (length (filter (\<lambda>d. s \<le> d \<and> d \<le> e) ds))"
      using Cons.prems by (intro Cons.IH) simp
    finally show ?thesis
      using True by (simp add: sum_list_increment [OF j])
  next
    case False
    then show ?thesis
      using Cons.IH [OF Cons.prems] by auto
  qed
qed

lemma count_sessions_buckets:
  "count_sessions s e ds (replicate 7 0)
     = map (\<lambda>i. int (length (filter (\<lambda>d. s \<le> d \<and> d \<le> e \<and> weekday d = int i) ds))) [0..<7]"
proof (rule nth_equalityI)
  show "length (count_sessions s e ds (replicate 7 0))
      = length (map (\<lambda>i. int (length (filter (\<lambda>d. s \<le> d \<and> d \<le> e \<and> weekday d = int i) ds))) [0..<7])"
    by (simp add: count_sessions_length)
next
  fix i
  assume "i < length (count_sessions s e ds (replicate 7 0))"
  then have i: "i < 7"
    by (simp add: count_sessions_length)
  have "count_sessions s e ds (replicate 7 0) ! i
      = replicate 7 0 ! i + int (length (filter (\<lambda>d. s \<le> d \<and> d \<le> e \<and> weekday d = int i) ds))"
    using i by (intro count_sessions_nth) simp_all
  then show "count_sessions s e ds (replicate 7 0) ! i
      = map (\<lambda>i. int (length (filter (\<lambda>d. s \<le> d \<and> d \<le> e \<and> weekday d = int i) ds))) [0..<7] ! i"
    using i by simp
qed

subsection \<open>The displayed week\<close>

lemma update_display_in_range:
  assumes "valid_date today"
    and "valid_date (today - weekday today + 7 * week_offset)"
    and "valid_date (today - weekday today + 7 * week_offset + 6)"
  shows "update_display sessions today week_offset
     = Inr \<lparr>week_label_start = today - weekday today + 7 * week_offset,
             week_label_end = today - weekday today + 7 * week_offset + 6,
             count_labels = count_sessions (today - weekday today + 7 * week_offset)
                 (today - weekday today + 7 * week_offset + 6) sessions (replicate 7 0),
             total_label = sum_list (count_sessions (today - weekday today + 7 * week_offset)
                 (today - weekday today + 7 * week_offset + 6) sessions (replicate 7 0))\<rparr>"
proof -
  define monday where "monday = today - weekday today"
  have m: "valid_date monday"
    unfolding monday_def using assms(1) by (rule monday_is_date)
  have wd: "timedelta (weekday today) 0 = Inr (weekday today)"
    using weekday_range [of today] by (simp add: timedelta_def)
  have sub: "date_sub today (weekday today) = Inr monday"
    using weekday_range [of today] m
    by (simp add: date_sub_def timedelta_def date_add_def valid_date_def monday_def)
  have "\<bar>week_offset * 7\<bar> \<le> 999999999"
    using m assms(2) unfolding valid_date_def MAXORDINAL_def monday_def by linarith
  then have shift: "timedelta 0 week_offset = Inr (7 * week_offset)"
    by (simp add: timedelta_def Let_def mult.commute)
  have first: "date_add monday (7 * week_offset) = Inr (monday + 7 * week_offset)"
    using assms(2) by (simp add: date_add_def valid_date_def monday_def)
  have six: "timedelta 6 0 = Inr 6"
    by (simp add: timedelta_def)
  have last: "date_add (monday + 7 * week_offset) 6 = Inr (monday + 7 * week_offset + 6)"
    using assms(3) by (simp add: date_add_def valid_date_def monday_def)
  show ?thesis
    unfolding update_display_def monday_def [symmetric]
    by (simp add: wd sub shift first six last Let_def)
qed

lemma update_display_out_of_range:
  assumes "valid_date today"
    and "\<not> (valid_date (today - weekday today + 7 * week_offset) \<and>
            valid_date (today - weekday today + 7 * week_offset + 6))"
  shows "update_display sessions today week_offset = Inl OverflowError"
proof -
  define monday where "monday = today - weekday today"
  have m: "valid_date monday"
    unfolding monday_def using assms(1) by (rule monday_is_date)
  have wd: "timedelta (weekday today) 0 = Inr (weekday today)"
    using weekday_range [of today] by (simp add: timedelta_def)
  have sub: "date_sub today (weekday today) = Inr monday"
    using weekday_range [of today] m
    by (simp add: date_sub_def timedelta_def date_add_def valid_date_def monday_def)
  have six: "timedelta 6 0 = Inr 6"
    by (simp add: timedelta_def)
  note start = update_display_def wd sub six
  show ?thesis
  proof (cases "\<bar>week_offset * 7\<bar> > 999999999")
    case True
    then have "timedelta 0 week_offset = Inl OverflowError"
      by (simp add: timedelta_def)
    then show ?thesis
      by (simp add: start)
  next
    case False
    then have shift: "timedelta 0 week_offset = Inr (7 * week_offset)"
      by (simp add: timedelta_def Let_def mult.commute)
    show ?thesis
    proof (cases "valid_date (monday + 7 * week_offset)")
      case True
      then have first: "date_add monday (7 * week_offset) = Inr (monday + 7 * week_offset)"
        by (auto simp add: date_add_def valid_date_def Let_def)
      from True assms(2) have "\<not> valid_date (monday + 7 * week_offset + 6)"
        by (simp add: monday_def)
      then have "date_add (monday + 7 * week_offset) 6 = Inl OverflowError"
        by (auto simp add: date_add_def valid_date_def Let_def)
      then show ?thesis
        by (simp add: start shift first)
    next
      case False
      then have "date_add monday (7 * week_offset) = Inl OverflowError"
        by (auto simp add: date_add_def valid_date_def Let_def)
      then show ?thesis
        by (simp add: start shift)
    qed
  qed
qed


lemma june_2024_week:
  "update_display [739040, 739042, 739046] 739042 0
     = Inr \<lparr>week_label_start = 739040, week_label_end = 739046,
             count_labels = [1, 0, 1, 0, 0, 0, 1], total_label = 3\<rparr>"
  by code_simp

text \<open>
  Claim C4, as amended. For a reference date \<open>today\<close>, the Monday on or before it is
  \<open>today - weekday today\<close>. For every signed week offset for which that Monday plus
  \<open>7 * week_offset\<close> days and the day six days later are both dates of the \<^verbatim>\<open>datetime\<close>
  module (0001-01-01 to 9999-12-31), the aggregation shows the window from that day
  \<open>first_day\<close> to \<open>first_day + 6\<close>; bucket \<open>i\<close> (Monday = 0 .. Sunday = 6, the day
  \<open>first_day + i\<close>) counts the sessions whose date is inside the inclusive window and
  has weekday \<open>i\<close>, sessions outside are ignored, and the weekly total is the sum of
  the seven buckets, the number of sessions inside the window. For every other
  offset the computation raises \<^verbatim>\<open>OverflowError\<close>. Sessions on 2024-06-03, 2024-06-05
  and 2024-06-09 with reference date 2024-06-05 and offset 0 give the counts
  \<open>[1,0,1,0,0,0,1]\<close> and the total 3.
\<close>

theorem weekly_aggregation:
  fixes today week_offset :: int and sessions :: "date list"
  assumes "valid_date today"
  defines "first_day \<equiv> today - weekday today + 7 * week_offset"
  shows "weekday (today - weekday today) = 0 \<and> today - weekday today \<le> today \<and>
         today < today - weekday today + 7 \<and>
         (valid_date first_day \<and> valid_date (first_day + 6) \<longrightarrow>
            update_display sessions today week_offset
              = Inr \<lparr>week_label_start = first_day, week_label_end = first_day + 6,
                      count_labels = map (\<lambda>i. int (length (filter
                          (\<lambda>d. first_day \<le> d \<and> d \<le> first_day + 6 \<and> weekday d = int i) sessions)))
                          [0..<7],
                      total_label = int (length (filter
                          (\<lambda>d. first_day \<le> d \<and> d \<le> first_day + 6) sessions))\<rparr> \<and>
            sum_list (map (\<lambda>i. int (length (filter
                (\<lambda>d. first_day \<le> d \<and> d \<le> first_day + 6 \<and> weekday d = int i) sessions))) [0..<7])
              = int (length (filter (\<lambda>d. first_day \<le> d \<and> d \<le> first_day + 6) sessions)) \<and>
            (\<forall>d. first_day \<le> d \<and> d \<le> first_day + 6 \<longrightarrow> weekday d = d - first_day)) \<and>
         (\<not> (valid_date first_day \<and> valid_date (first_day + 6)) \<longrightarrow>
            update_display sessions today week_offset = Inl OverflowError) \<and>
         date_ymd 2024 6 3 = Inr 739040 \<and> date_ymd 2024 6 5 = Inr 739042 \<and>
         date_ymd 2024 6 9 = Inr 739046 \<and>
         update_display [739040, 739042, 739046] 739042 0
           = Inr \<lparr>week_label_start = 739040, week_label_end = 739046,
                   count_labels = [1, 0, 1, 0, 0, 0, 1], total_label = 3\<rparr>"
proof -
  have monday: "weekday (today - weekday today) = 0 \<and> today - weekday today \<le> today \<and>
         today < today - weekday today + 7"
    by (rule monday_before)
  then have first_monday: "weekday first_day = 0"
    unfolding first_day_def by (simp add: weekday_shift)
  have days: "weekday d = d - first_day" if "first_day \<le> d \<and> d \<le> first_day + 6" for d
    using first_monday that by (intro weekday_in_week) simp_all
  have buckets: "count_sessions first_day (first_day + 6) sessions (replicate 7 0)
      = map (\<lambda>i. int (length (filter
          (\<lambda>d. first_day \<le> d \<and> d \<le> first_day + 6 \<and> weekday d = int i) sessions))) [0..<7]"
    by (rule count_sessions_buckets)
  have "sum_list (count_sessions first_day (first_day + 6) sessions (replicate 7 0))
      = sum_list (replicate 7 0)
        + int (length (filter (\<lambda>d. first_day \<le> d \<and> d \<le> first_day + 6) sessions))"
    by (rule count_sessions_sum) simp
  then have sum: "sum_list (count_sessions first_day (first_day + 6) sessions (replicate 7 0))
      = int (length (filter (\<lambda>d. first_day \<le> d \<and> d \<le> first_day + 6) sessions))"
    by (simp add: sum_list_replicate)
  have inside: "update_display sessions today week_offset
      = Inr \<lparr>week_label_start = first_day, week_label_end = first_day + 6,
              count_labels = count_sessions first_day (first_day + 6) sessions (replicate 7 0),
              total_label = sum_list
                (count_sessions first_day (first_day + 6) sessions (replicate 7 0))\<rparr>"
    if "valid_date first_day \<and> valid_date (first_day + 6)"
    using assms(1) that unfolding first_day_def by (intro update_display_in_range) simp_all
  have outside: "update_display sessions today week_offset = Inl OverflowError"
    if "\<not> (valid_date first_day \<and> valid_date (first_day + 6))"
    using assms(1) that unfolding first_day_def by (rule update_display_out_of_range)
  have shown: "update_display sessions today week_offset
      = Inr \<lparr>week_label_start = first_day, week_label_end = first_day + 6,
              count_labels = map (\<lambda>i. int (length (filter
                  (\<lambda>d. first_day \<le> d \<and> d \<le> first_day + 6 \<and> weekday d = int i) sessions)))
                  [0..<7],
              total_label = int (length (filter
                  (\<lambda>d. first_day \<le> d \<and> d \<le> first_day + 6) sessions))\<rparr>"
    if "valid_date first_day \<and> valid_date (first_day + 6)"
  proof -
    note inside [OF that, unfolded sum]
    then show ?thesis
      unfolding buckets .
  qed
  have total: "sum_list (map (\<lambda>i. int (length (filter
          (\<lambda>d. first_day \<le> d \<and> d \<le> first_day + 6 \<and> weekday d = int i) sessions))) [0..<7])
      = int (length (filter (\<lambda>d. first_day \<le> d \<and> d \<le> first_day + 6) sessions))"
    using sum by (simp only: buckets)
  show ?thesis
    using monday shown total days outside june_2024 june_2024_week by blast
qed


theorem weekly_aggregation_witness:
  "valid_date 739042 \<and>
   valid_date (739042 - weekday 739042 + 7 * 0) \<and>
   valid_date (739042 - weekday 739042 + 7 * 0 + 6) \<and>
   update_display [739040, 739042, 739046] 739042 0
     = Inr \<lparr>week_label_start = 739040, week_label_end = 739046,
             count_labels = [1, 0, 1, 0, 0, 0, 1], total_label = 3\<rparr> \<and>
   \<not> valid_date (739042 - weekday 739042 + 7 * (- 105578)) \<and>
   update_display [739040, 739042, 739046] 739042 (- 105578) = Inl OverflowError"
proof -
  have v: "valid_date 739042"
    by (simp add: valid_date_def MAXORDINAL_def)
  have w: "weekday 739042 = 2"
    by (simp add: weekday_def)
  have inside: "valid_date (739042 - weekday 739042 + 7 * 0) \<and>
      valid_date (739042 - weekday 739042 + 7 * 0 + 6)"
    by (simp add: w valid_date_def MAXORDINAL_def)
  have outside: "\<not> valid_date (739042 - weekday 739042 + 7 * (- 105578))"
    by (simp add: w valid_date_def)
  from inside weekly_aggregation [OF v, of 0 "[739040, 739042, 739046]"]
  have "update_display [739040, 739042, 739046] 739042 0
     = Inr \<lparr>week_label_start = 739042 - weekday 739042 + 7 * 0,
             week_label_end = 739042 - weekday 739042 + 7 * 0 + 6,
             count_labels = map (\<lambda>i. int (length (filter
                 (\<lambda>d. 739042 - weekday 739042 + 7 * 0 \<le> d \<and>
                      d \<le> 739042 - weekday 739042 + 7 * 0 + 6 \<and> weekday d = int i)
                 [739040, 739042, 739046]))) [0..<7],
             total_label = int (length (filter
                 (\<lambda>d. 739042 - weekday 739042 + 7 * 0 \<le> d \<and>
                      d \<le> 739042 - weekday 739042 + 7 * 0 + 6)
                 [739040, 739042, 739046]))\<rparr>"
    by blast
  then have "update_display [739040, 739042, 739046] 739042 0
     = Inr \<lparr>week_label_start = 739040, week_label_end = 739046,
             count_labels = [1, 0, 1, 0, 0, 0, 1], total_label = 3\<rparr>"
    by (simp add: weekday_def upt_rec)
  moreover from outside weekly_aggregation [OF v, of "- 105578" "[739040, 739042, 739046]"]
  have "update_display [739040, 739042, 739046] 739042 (- 105578) = Inl OverflowError"
    by blast
  ultimately show ?thesis
    using v inside outside by blast
qed

theorem week_before_year_one_counterexample:
  "date_ymd 2024 6 5 = Inr 739042 \<and>
   739042 - weekday 739042 + 7 * (- 105578) = - 6 \<and>
   update_display [739040, 739042, 739046] 739042 (- 105578) = Inl OverflowError"
proof -
  have "739042 - weekday 739042 + 7 * (- 105578) = - 6"
    by (simp add: weekday_def)
  moreover have "update_display [739040, 739042, 739046] 739042 (- 105578) = Inl OverflowError"
    by code_simp
  ultimately show ?thesis
    using june_2024(2) by simp
qed

end
